theory Spec2Isabelle
  imports Main
begin

section \<open>The OpenCitations API client (src/opencitations/lib.ts)\<close>

subsection \<open>JavaScript strings and numbers\<close>

text \<open>
  A JavaScript string is a sequence of code units. It is modelled as a \<open>string\<close>, one
  \<open>char\<close> for each code unit (the code units 0 to 255). The operations the client uses
  (\<open>startsWith\<close>, concatenation, \<open>join\<close>, comparison with a literal, the test for the
  empty string) work on code units one by one.
\<close>

definition startsWith :: "string \<Rightarrow> string \<Rightarrow> bool" where
  \<comment> \<open>\<open>s.startsWith(p)\<close>\<close>
  "startsWith s p = (take (length p) s = p)"

fun join :: "string \<Rightarrow> string list \<Rightarrow> string" where
  \<comment> \<open>\<open>xs.join(sep)\<close>\<close>
  "join sep [] = []"
| "join sep [x] = x"
| "join sep (x # y # ys) = x @ sep @ join sep (y # ys)"

definition orElse :: "string \<Rightarrow> string \<Rightarrow> string" where
  \<comment> \<open>\<open>a || b\<close> on strings: the empty string is the only falsy string\<close>
  "orElse a b = (if a = [] then b else a)"

definition newline :: string where
  "newline = [CHR 0x0A]"

text \<open>
  The decimal text of a non-negative integer, as a template literal renders an array
  index or an HTTP status (\<open>Number::toString\<close> below \<open>10^21\<close>).
\<close>

definition digitChar :: "nat \<Rightarrow> char" where
  "digitChar d = char_of (48 + d)"

fun numberToString :: "nat \<Rightarrow> string" where
  "numberToString n =
     (if n < 10 then [digitChar n]
      else numberToString (n div 10) @ [digitChar (n mod 10)])"

declare numberToString.simps [simp del]

text \<open>
  The value of a count operation is a JavaScript number. \<open>Num n\<close> stands for the
  Number value of the mathematical integer \<open>n\<close> (the same integer up to \<open>2^53\<close>; the
  sign of a zero is not recorded), \<open>NaN\<close> for not-a-number.
\<close>

datatype number = NaN | Num int

definition isWhiteSpace :: "char \<Rightarrow> bool" where
  \<comment> \<open>the code units below 256 that \<open>TrimString\<close> removes: TAB, LF, VT, FF, CR, SP, NBSP\<close>
  "isWhiteSpace c = ((of_char c :: nat) \<in> {9, 10, 11, 12, 13, 32, 160})"

definition isDigit :: "char \<Rightarrow> bool" where
  "isDigit c = (48 \<le> (of_char c :: nat) \<and> (of_char c :: nat) \<le> 57)"

definition digitValue :: "char \<Rightarrow> nat" where
  "digitValue c = of_char c - 48"

definition mathInt :: "string \<Rightarrow> nat" where
  \<comment> \<open>the integer that a sequence of decimal digits denotes\<close>
  "mathInt Z = foldl (\<lambda>a c. 10 * a + digitValue c) 0 Z"

definition parseInt10 :: "string \<Rightarrow> number" where
  \<comment> \<open>\<open>parseInt(inputString, 10)\<close>: leading white space is dropped, then an optional
      sign, then the longest run of decimal digits is read; what follows is ignored\<close>
  "parseInt10 inputString =
     (let S = dropWhile isWhiteSpace inputString;
          sign = (if S \<noteq> [] \<and> hd S = CHR ''-'' then - 1 else 1 :: int);
          S' = (if S \<noteq> [] \<and> (hd S = CHR ''+'' \<or> hd S = CHR ''-'') then tl S else S);
          Z = takeWhile isDigit S'
      in if Z = [] then NaN else Num (sign * int (mathInt Z)))"

subsection \<open>Types\<close>

record Citation =
  oci :: string
  citing :: string
  cited :: string
  creation :: string
  timespan :: string
  journal_sc :: string
  author_sc :: string

record CitationCount =
  count :: string

subsection \<open>The API client\<close>

text \<open>
  A promise is modelled by its outcome: \<open>Inl e\<close> when it is rejected with \<open>e\<close>,
  \<open>Inr v\<close> when it is fulfilled with \<open>v\<close>. \<open>Error m\<close> is the \<open>Error\<close> object with
  message \<open>m\<close> that \<open>apiRequest\<close> throws; the other two are what a rejected \<open>fetch\<close>
  (no connection) and a rejected \<open>response.json()\<close> (a body that is not JSON) carry.
\<close>

datatype error = Error string | FetchRejected string | JsonRejected string

record request =
  url :: string
  headers :: "string \<rightharpoonup> string"

text \<open>
  What \<open>fetch\<close> resolves to: the status line and the outcome of \<open>response.json()\<close>.
  The cast \<open>as Promise<T>\<close> checks nothing, so the decoded body has the type the
  caller names. \<open>response.ok\<close> is true for the statuses 200 to 299 and for no other.
\<close>

record 'a response =
  status :: nat
  statusText :: string
  json :: "error + 'a"

definition ok :: "'a response \<Rightarrow> bool" where
  "ok response = (200 \<le> status response \<and> status response \<le> 299)"

type_synonym 'a fetch = "request \<Rightarrow> error + 'a response"

definition BASE_URL :: string where
  "BASE_URL = ''https://api.opencitations.net/index/v2''"

definition apiRequest_init :: "string \<Rightarrow> string option \<Rightarrow> request" where
  \<comment> \<open>lines 37 to 46 of \<open>apiRequest\<close>: the URL and the headers handed to \<open>fetch\<close>;
      \<open>if (accessToken)\<close> holds for a token that is given and is not the empty string\<close>
  "apiRequest_init endpoint accessToken =
     (let url = BASE_URL @ endpoint;
          headers = [''Accept'' \<mapsto> ''application/json''];
          headers' = (case accessToken of
                        None \<Rightarrow> headers
                      | Some t \<Rightarrow> if t \<noteq> [] then headers(''Authorization'' \<mapsto> t) else headers)
      in \<lparr>url = url, headers = headers'\<rparr>)"

definition apiRequest :: "'a fetch \<Rightarrow> string \<Rightarrow> string option \<Rightarrow> error + 'a" where
  "apiRequest fetch endpoint accessToken =
     (case fetch (apiRequest_init endpoint accessToken) of
        Inl e \<Rightarrow> Inl e
      | Inr response \<Rightarrow>
          if \<not> ok response
          then Inl (Error (''API request failed: '' @ numberToString (status response)
                            @ '' '' @ statusText response))
          else json response)"

subsection \<open>Public functions\<close>

definition getCitationCount ::
  "CitationCount list fetch \<Rightarrow> string \<Rightarrow> string option \<Rightarrow> error + number" where
  "getCitationCount fetch ident accessToken =
     (case apiRequest fetch (''/citation-count/'' @ ident) accessToken of
        Inl e \<Rightarrow> Inl e
      | Inr data \<Rightarrow>
          if length data = 0 then Inr (Num 0)
          else Inr (parseInt10 (count (data ! 0))))"

definition getCitations ::
  "Citation list fetch \<Rightarrow> string \<Rightarrow> string option \<Rightarrow> error + Citation list" where
  "getCitations fetch ident accessToken =
     apiRequest fetch (''/citations/'' @ ident) accessToken"

definition getReferenceCount ::
  "CitationCount list fetch \<Rightarrow> string \<Rightarrow> string option \<Rightarrow> error + number" where
  "getReferenceCount fetch ident accessToken =
     (case apiRequest fetch (''/reference-count/'' @ ident) accessToken of
        Inl e \<Rightarrow> Inl e
      | Inr data \<Rightarrow>
          if length data = 0 then Inr (Num 0)
          else Inr (parseInt10 (count (data ! 0))))"

definition getReferences ::
  "Citation list fetch \<Rightarrow> string \<Rightarrow> string option \<Rightarrow> error + Citation list" where
  "getReferences fetch ident accessToken =
     apiRequest fetch (''/references/'' @ ident) accessToken"

definition getCitation ::
  "Citation list fetch \<Rightarrow> string \<Rightarrow> string option \<Rightarrow> error + Citation option" where
  \<comment> \<open>\<open>null\<close> is \<open>None\<close>\<close>
  "getCitation fetch oci_id accessToken =
     (case apiRequest fetch (''/citation/'' @ oci_id) accessToken of
        Inl e \<Rightarrow> Inl e
      | Inr data \<Rightarrow> Inr (if length data > 0 then Some (data ! 0) else None))"

definition getVenueCitationCount ::
  "CitationCount list fetch \<Rightarrow> string \<Rightarrow> string option \<Rightarrow> error + number" where
  "getVenueCitationCount fetch issn accessToken =
     (case apiRequest fetch (''/venue-citation-count/'' @ issn) accessToken of
        Inl e \<Rightarrow> Inl e
      | Inr data \<Rightarrow>
          if length data = 0 then Inr (Num 0)
          else Inr (parseInt10 (count (data ! 0))))"

subsection \<open>Utility functions\<close>

text \<open>
  The regular expression \<open>/^https?:\/\/doi\.org\//\<close> has no flag: it matches at the
  start of the string only, letter case counts, and \<open>s?\<close> takes the \<open>s\<close> first and
  gives it back when the rest does not match. \<open>stripLiteral\<close> reads one literal piece
  of the pattern; \<open>matchDoiUrl\<close> returns what is left of the string behind a match.
\<close>

fun stripLiteral :: "string \<Rightarrow> string \<Rightarrow> string option" where
  "stripLiteral [] s = Some s"
| "stripLiteral (p # ps) [] = None"
| "stripLiteral (p # ps) (c # cs) = (if p = c then stripLiteral ps cs else None)"

definition matchDoiUrl :: "string \<Rightarrow> string option" where
  "matchDoiUrl s =
     (case stripLiteral ''http'' s of
        None \<Rightarrow> None
      | Some r \<Rightarrow>
          (case (case stripLiteral ''s'' r of
                   None \<Rightarrow> None
                 | Some r' \<Rightarrow> stripLiteral ''://doi.org/'' r') of
             Some rest \<Rightarrow> Some rest
           | None \<Rightarrow> stripLiteral ''://doi.org/'' r))"

definition formatDoi :: "string \<Rightarrow> string" where
  "formatDoi doi =
     (let doi' = (case matchDoiUrl doi of None \<Rightarrow> doi | Some rest \<Rightarrow> '''' @ rest)
      in if \<not> startsWith doi' ''doi:'' then ''doi:'' @ doi' else doi')"

definition formatIssn :: "string \<Rightarrow> string" where
  "formatIssn issn =
     (if \<not> startsWith issn ''issn:'' then ''issn:'' @ issn else issn)"

definition formatCitationAsText :: "Citation \<Rightarrow> string" where
  "formatCitationAsText citation =
     (let lines =
        [''OCI: '' @ oci citation,
         ''Citing: '' @ citing citation,
         ''Cited: '' @ cited citation,
         ''Date: '' @ orElse (creation citation) ''N/A'',
         ''Timespan: '' @ orElse (timespan citation) ''N/A'',
         ''Journal self-citation: '' @ orElse (journal_sc citation) ''no'',
         ''Author self-citation: '' @ orElse (author_sc citation) ''no'']
      in join newline lines)"




subsection \<open>Notions used in the statements\<close>

text \<open>
  \<open>containsText s sub\<close> is \<open>s.includes(sub)\<close>: the text \<open>sub\<close> occurs somewhere in
  \<open>s\<close>. A string contains a doi.org URL when \<open>http://doi.org/\<close> or \<open>https://doi.org/\<close>
  occurs in it.
\<close>

fun containsText :: "string \<Rightarrow> string \<Rightarrow> bool" where
  "containsText [] sub = startsWith [] sub"
| "containsText (c # cs) sub = (startsWith (c # cs) sub \<or> containsText cs sub)"

definition containsDoiUrl :: "string \<Rightarrow> bool" where
  "containsDoiUrl s = (containsText s ''http://doi.org/'' \<or> containsText s ''https://doi.org/'')"

text \<open>
  \<open>splitLines s\<close> is \<open>s.split("\n")\<close>: the lines of a text, cut at each line feed.
\<close>

fun splitLines :: "string \<Rightarrow> string list" where
  "splitLines [] = [[]]"
| "splitLines (c # cs) =
     (if c = CHR 0x0A then [] # splitLines cs
      else (case splitLines cs of [] \<Rightarrow> [[c]] | l # ls \<Rightarrow> (c # l) # ls))"

section \<open>Properties\<close>

subsection \<open>Prefixes and the URL pattern\<close>

lemma startsWith_iff: "startsWith s p \<longleftrightarrow> (\<exists>r. s = p @ r)"
  unfolding startsWith_def
  by (metis append_eq_conv_conj append_take_drop_id)

lemma startsWith_append [simp]: "startsWith (p @ r) p"
  by (simp add: startsWith_def)

lemma containsText_startsWith: "startsWith s sub \<Longrightarrow> containsText s sub"
  by (cases s) simp_all

lemma containsText_iff: "containsText s sub \<longleftrightarrow> (\<exists>p q. s = p @ sub @ q)"
proof (induction s)
  case Nil
  then show ?case by (auto simp: startsWith_def)
next
  case (Cons c cs)
  show ?case
  proof
    assume "containsText (c # cs) sub"
    then consider "startsWith (c # cs) sub" | "containsText cs sub" by auto
    then show "\<exists>p q. c # cs = p @ sub @ q"
    proof cases
      case 1
      then obtain r where "c # cs = sub @ r" by (auto simp: startsWith_iff)
      then have "c # cs = [] @ sub @ r" by simp
      then show ?thesis by blast
    next
      case 2
      then obtain p q where "cs = p @ sub @ q" using Cons.IH by blast
      then have "c # cs = (c # p) @ sub @ q" by simp
      then show ?thesis by blast
    qed
  next
    assume "\<exists>p q. c # cs = p @ sub @ q"
    then obtain p q where pq: "c # cs = p @ sub @ q" by blast
    show "containsText (c # cs) sub"
    proof (cases p)
      case Nil
      with pq have "startsWith (c # cs) sub" by (auto simp: startsWith_iff)
      then show ?thesis by simp
    next
      case (Cons a p')
      with pq have "cs = p' @ sub @ q" by simp
      then have "containsText cs sub" using Cons.IH by blast
      then show ?thesis by simp
    qed
  qed
qed

lemma stripLiteral_Some_iff: "stripLiteral p s = Some r \<longleftrightarrow> s = p @ r"
  by (induction p s rule: stripLiteral.induct) auto

lemma stripLiteral_append [simp]: "stripLiteral p (p @ r) = Some r"
  by (simp add: stripLiteral_Some_iff)

text \<open>The pattern matches exactly the strings that begin with one of the two lower-case URLs.\<close>

lemma matchDoiUrl_Some_iff:
  "matchDoiUrl s = Some rest \<longleftrightarrow>
     s = ''https://doi.org/'' @ rest \<or> s = ''http://doi.org/'' @ rest"
  unfolding matchDoiUrl_def
  by (auto simp: stripLiteral_Some_iff split: option.splits)

lemma matchDoiUrl_None_iff:
  "matchDoiUrl s = None \<longleftrightarrow>
     \<not> startsWith s ''https://doi.org/'' \<and> \<not> startsWith s ''http://doi.org/''"
proof -
  have "matchDoiUrl s = None \<longleftrightarrow> (\<forall>rest. matchDoiUrl s \<noteq> Some rest)" by auto
  then show ?thesis
    unfolding matchDoiUrl_Some_iff startsWith_iff by blast
qed

subsection \<open>The DOI and ISSN normalizers\<close>

lemma formatDoi_no_url:
  "\<not> startsWith s ''https://doi.org/'' \<Longrightarrow> \<not> startsWith s ''http://doi.org/'' \<Longrightarrow>
   formatDoi s = (if startsWith s ''doi:'' then s else ''doi:'' @ s)"
  using matchDoiUrl_None_iff [of s] by (simp add: formatDoi_def)

lemma formatDoi_url:
  "formatDoi (''https://doi.org/'' @ rest) = (if startsWith rest ''doi:'' then rest else ''doi:'' @ rest)"
  "formatDoi (''http://doi.org/'' @ rest) = (if startsWith rest ''doi:'' then rest else ''doi:'' @ rest)"
  using matchDoiUrl_Some_iff [of "''https://doi.org/'' @ rest" rest]
        matchDoiUrl_Some_iff [of "''http://doi.org/'' @ rest" rest]
  by (simp_all add: formatDoi_def)

lemma formatDoi_startsWith: "startsWith (formatDoi s) ''doi:''"
  by (simp add: formatDoi_def Let_def startsWith_def split: option.splits)

lemma formatDoi_fixed: "startsWith t ''doi:'' \<Longrightarrow> formatDoi t = t"
proof -
  assume a: "startsWith t ''doi:''"
  then obtain r where "t = ''doi:'' @ r" by (auto simp: startsWith_iff)
  then have "matchDoiUrl t = None" by (simp add: matchDoiUrl_def)
  with a show ?thesis by (simp add: formatDoi_def)
qed

text \<open>
  Claim C4. For every string \<open>s\<close> that does not start with \<open>doi:\<close> and does not contain a
  doi.org URL, \<open>formatDoi s\<close> is \<open>doi:\<close> followed by \<open>s\<close>.
\<close>

theorem formatDoi_prepends:
  "\<not> startsWith s ''doi:'' \<Longrightarrow> \<not> containsDoiUrl s \<Longrightarrow> formatDoi s = ''doi:'' @ s"
  using formatDoi_no_url [of s] containsText_startsWith [of s]
  by (auto simp: containsDoiUrl_def)

theorem formatDoi_prepends_witness:
  "\<not> startsWith ''10.1108/jd-12-2013-0166'' ''doi:''
   \<and> \<not> containsDoiUrl ''10.1108/jd-12-2013-0166''
   \<and> formatDoi ''10.1108/jd-12-2013-0166'' = ''doi:10.1108/jd-12-2013-0166''"
proof -
  have a: "\<not> startsWith ''10.1108/jd-12-2013-0166'' ''doi:''"
    by (simp add: startsWith_def)
  have b: "\<not> containsDoiUrl ''10.1108/jd-12-2013-0166''"
    by (simp add: containsDoiUrl_def startsWith_def)
  show ?thesis using a b formatDoi_prepends [OF a b] by simp
qed

text \<open>
  Claim C5, as stated, asks for the scheme to be matched in any letter case. The pattern
  of \<open>formatDoi\<close> has no \<open>i\<close> flag: an upper-case scheme is not recognised, the URL
  stays in place and \<open>doi:\<close> is put in front of it.
\<close>

theorem formatDoi_upper_case_counterexample:
  "formatDoi (''HTTPS://'' @ ''doi.org/'' @ ''10.1/x'') = ''doi:HTTPS://doi.org/10.1/x''"
  by (simp add: formatDoi_def matchDoiUrl_def startsWith_def)

text \<open>
  Claim C5, amended. For every string of the form scheme, \<open>doi.org/\<close>, rest, where the
  scheme is \<open>http://\<close> or \<open>https://\<close> in lower case, \<open>formatDoi\<close> removes the URL prefix:
  the result is the rest, with \<open>doi:\<close> in front unless the rest begins with it. In
  particular \<open>https://doi.org/10.1/x\<close> gives \<open>doi:10.1/x\<close>.
\<close>

theorem formatDoi_strips_url:
  "scheme = ''http://'' \<or> scheme = ''https://'' \<Longrightarrow>
   formatDoi (scheme @ ''doi.org/'' @ rest)
     = (if startsWith rest ''doi:'' then rest else ''doi:'' @ rest)"
  using formatDoi_url [of rest] by auto

theorem formatDoi_strips_url_witness:
  "formatDoi (''https://'' @ ''doi.org/'' @ ''10.1/x'') = ''doi:10.1/x''"
  using formatDoi_strips_url [of "''https://''" "''10.1/x''"]
  by (simp add: startsWith_def)

text \<open>
  Claim C6. Both normalizers are idempotent, and \<open>formatIssn\<close> returns a string that
  begins with \<open>issn:\<close> unchanged and puts \<open>issn:\<close> in front of any other.
\<close>

theorem format_idempotent:
  "formatDoi (formatDoi s) = formatDoi s
   \<and> formatIssn (formatIssn s) = formatIssn s
   \<and> formatIssn s = (if startsWith s ''issn:'' then s else ''issn:'' @ s)"
proof -
  have "formatDoi (formatDoi s) = formatDoi s"
    by (rule formatDoi_fixed [OF formatDoi_startsWith])
  moreover have "formatIssn (formatIssn s) = formatIssn s"
    by (simp add: formatIssn_def startsWith_def)
  moreover have "formatIssn s = (if startsWith s ''issn:'' then s else ''issn:'' @ s)"
    by (simp add: formatIssn_def)
  ultimately show ?thesis by simp
qed

subsection \<open>Decimal digits\<close>

lemma of_char_digitChar: "d < 10 \<Longrightarrow> (of_char (digitChar d) :: nat) = 48 + d"
  by (simp add: digitChar_def)

lemma digitChar_isDigit: "d < 10 \<Longrightarrow> isDigit (digitChar d)"
  by (simp add: isDigit_def of_char_digitChar)

lemma digitChar_value: "d < 10 \<Longrightarrow> digitValue (digitChar d) = d"
  by (simp add: digitValue_def of_char_digitChar)

lemma digitChar_not_space: "d < 10 \<Longrightarrow> \<not> isWhiteSpace (digitChar d)"
  by (simp add: isWhiteSpace_def of_char_digitChar)

lemma digitChar_not_sign:
  assumes "d < 10"
  shows "digitChar d \<noteq> CHR ''+''" and "digitChar d \<noteq> CHR ''-''"
proof -
  have "(of_char (digitChar d) :: nat) \<noteq> of_char CHR ''+''"
    using assms by (simp add: of_char_digitChar)
  then show "digitChar d \<noteq> CHR ''+''" by auto
  have "(of_char (digitChar d) :: nat) \<noteq> of_char CHR ''-''"
    using assms by (simp add: of_char_digitChar)
  then show "digitChar d \<noteq> CHR ''-''" by auto
qed

lemma numberToString_digits: "list_all isDigit (numberToString n)"
proof (induction n rule: numberToString.induct)
  case (1 n)
  show ?case
  proof (cases "n < 10")
    case True
    then show ?thesis by (simp add: numberToString.simps [of n] digitChar_isDigit)
  next
    case False
    then show ?thesis
      using "1.IH" by (simp add: numberToString.simps [of n] digitChar_isDigit)
  qed
qed

lemma numberToString_hd:
  "numberToString n \<noteq> [] \<and> (\<exists>d < 10. hd (numberToString n) = digitChar d)"
proof (induction n rule: numberToString.induct)
  case (1 n)
  show ?case
  proof (cases "n < 10")
    case True
    then show ?thesis by (auto simp: numberToString.simps [of n])
  next
    case False
    then show ?thesis
      using "1.IH" by (auto simp: numberToString.simps [of n])
  qed
qed

lemma mathInt_snoc: "mathInt (ds @ [d]) = 10 * mathInt ds + digitValue d"
  by (simp add: mathInt_def)

lemma mathInt_numberToString: "mathInt (numberToString n) = n"
proof (induction n rule: numberToString.induct)
  case (1 n)
  show ?case
  proof (cases "n < 10")
    case True
    then show ?thesis
      by (simp add: numberToString.simps [of n] mathInt_def digitChar_value)
  next
    case False
    then show ?thesis
      using "1.IH" by (simp add: numberToString.simps [of n] mathInt_snoc digitChar_value)
  qed
qed

text \<open>Parsing the decimal text of a number gives the number back.\<close>

lemma parseInt10_numberToString: "parseInt10 (numberToString n) = Num (int n)"
proof -
  obtain d where d: "d < 10" "hd (numberToString n) = digitChar d"
    and ne: "numberToString n \<noteq> []"
    using numberToString_hd [of n] by blast
  have dw: "dropWhile isWhiteSpace (numberToString n) = numberToString n"
    using ne d digitChar_not_space [OF d(1)] by (cases "numberToString n") auto
  have tw: "takeWhile isDigit (numberToString n) = numberToString n"
    using numberToString_digits [of n] by (simp add: list_all_iff)
  show ?thesis
    using ne d(2) digitChar_not_sign [OF d(1)]
    by (simp add: parseInt10_def Let_def dw tw mathInt_numberToString)
qed


subsection \<open>The HTTP request executor\<close>

lemma apiRequest_not_ok:
  "fetch (apiRequest_init endpoint tok) = Inr r \<Longrightarrow> \<not> ok r \<Longrightarrow>
   apiRequest fetch endpoint tok
     = Inl (Error (''API request failed: '' @ numberToString (status r) @ '' '' @ statusText r))"
  by (simp add: apiRequest_def)

lemma apiRequest_ok:
  "fetch (apiRequest_init endpoint tok) = Inr r \<Longrightarrow> ok r \<Longrightarrow>
   apiRequest fetch endpoint tok = json r"
  by (simp add: apiRequest_def)

text \<open>A failure of \<open>fetch\<close> itself is passed on as it is.\<close>

lemma apiRequest_fetch_rejected:
  "fetch (apiRequest_init endpoint tok) = Inl e \<Longrightarrow> apiRequest fetch endpoint tok = Inl e"
  by (simp add: apiRequest_def)

lemma apiRequest_status:
  assumes "\<And>req. \<exists>r. fetch req = Inr r \<and> status r = st \<and> statusText r = txt"
    and "\<not> (200 \<le> st \<and> st \<le> 299)"
  shows "apiRequest fetch endpoint tok
     = Inl (Error (''API request failed: '' @ numberToString st @ '' '' @ txt))"
proof -
  obtain r where r: "fetch (apiRequest_init endpoint tok) = Inr r"
      "status r = st" "statusText r = txt"
    using assms(1) by blast
  with assms(2) have "\<not> ok r" by (simp add: ok_def)
  with r show ?thesis by (simp add: apiRequest_not_ok)
qed

lemma apiRequest_decoded:
  assumes "\<And>req. \<exists>r. fetch req = Inr r \<and> ok r \<and> json r = Inr data"
  shows "apiRequest fetch endpoint tok = Inr data"
proof -
  obtain r where r: "fetch (apiRequest_init endpoint tok) = Inr r" "ok r" "json r = Inr data"
    using assms by blast
  then show ?thesis by (simp add: apiRequest_ok)
qed

text \<open>
  Claim C1. When the remote API answers with a status \<open>st\<close> outside 200 to 299 and the
  status text \<open>txt\<close>, each of the six operations, for every identifier and every
  optional token, is rejected with the error that \<open>apiRequest\<close> throws, whose message
  holds the status in decimal and the status text. No operation is fulfilled, so none
  returns 0, an empty list or \<open>null\<close> in its place.
\<close>

theorem non_2xx_fails:
  assumes "\<not> (200 \<le> st \<and> st \<le> 299)"
    and "\<And>req. \<exists>r. fetchCounts req = Inr r \<and> status r = st \<and> statusText r = txt"
    and "\<And>req. \<exists>r. fetchList req = Inr r \<and> status r = st \<and> statusText r = txt"
  shows "getCitationCount fetchCounts ident tok
           = Inl (Error (''API request failed: '' @ numberToString st @ '' '' @ txt))
       \<and> getCitations fetchList ident tok
           = Inl (Error (''API request failed: '' @ numberToString st @ '' '' @ txt))
       \<and> getReferenceCount fetchCounts ident tok
           = Inl (Error (''API request failed: '' @ numberToString st @ '' '' @ txt))
       \<and> getReferences fetchList ident tok
           = Inl (Error (''API request failed: '' @ numberToString st @ '' '' @ txt))
       \<and> getCitation fetchList ident tok
           = Inl (Error (''API request failed: '' @ numberToString st @ '' '' @ txt))
       \<and> getVenueCitationCount fetchCounts ident tok
           = Inl (Error (''API request failed: '' @ numberToString st @ '' '' @ txt))"
  using apiRequest_status [OF assms(2) assms(1)] apiRequest_status [OF assms(3) assms(1)]
  by (simp add: getCitationCount_def getCitations_def getReferenceCount_def
      getReferences_def getCitation_def getVenueCitationCount_def)

theorem non_2xx_fails_witness:
  "getCitationCount (\<lambda>_. Inr \<lparr>status = 404, statusText = ''Not Found'', json = Inr []\<rparr>)
       ''doi:10.1/x'' None = Inl (Error ''API request failed: 404 Not Found'')
   \<and> getCitations (\<lambda>_. Inr \<lparr>status = 404, statusText = ''Not Found'', json = Inr []\<rparr>)
       ''doi:10.1/x'' None = Inl (Error ''API request failed: 404 Not Found'')
   \<and> getReferenceCount (\<lambda>_. Inr \<lparr>status = 404, statusText = ''Not Found'', json = Inr []\<rparr>)
       ''doi:10.1/x'' None = Inl (Error ''API request failed: 404 Not Found'')
   \<and> getReferences (\<lambda>_. Inr \<lparr>status = 404, statusText = ''Not Found'', json = Inr []\<rparr>)
       ''doi:10.1/x'' None = Inl (Error ''API request failed: 404 Not Found'')
   \<and> getCitation (\<lambda>_. Inr \<lparr>status = 404, statusText = ''Not Found'', json = Inr []\<rparr>)
       ''doi:10.1/x'' None = Inl (Error ''API request failed: 404 Not Found'')
   \<and> getVenueCitationCount (\<lambda>_. Inr \<lparr>status = 404, statusText = ''Not Found'', json = Inr []\<rparr>)
       ''doi:10.1/x'' None = Inl (Error ''API request failed: 404 Not Found'')"
proof -
  have st: "\<not> (200 \<le> (404::nat) \<and> (404::nat) \<le> 299)" by simp
  have c: "\<And>req. \<exists>r. (\<lambda>_. Inr \<lparr>status = 404, statusText = ''Not Found'',
              json = (Inr [] :: error + CitationCount list)\<rparr>) req = Inr r
            \<and> status r = 404 \<and> statusText r = ''Not Found''"
    by simp
  have l: "\<And>req. \<exists>r. (\<lambda>_. Inr \<lparr>status = 404, statusText = ''Not Found'',
              json = (Inr [] :: error + Citation list)\<rparr>) req = Inr r
            \<and> status r = 404 \<and> statusText r = ''Not Found''"
    by simp
  have n: "numberToString 404 = ''404''"
    by code_simp
  show ?thesis
    using non_2xx_fails [OF st c l, of "''doi:10.1/x''" None] by (simp add: n)
qed

text \<open>
  Claim C7, as stated, fails for the token that is the empty string: it is supplied, and
  \<open>if (accessToken)\<close> is false for it, so no Authorization header is set.
\<close>

theorem authorization_header_counterexample:
  "headers (apiRequest_init ''/citations/doi:10.1/x'' (Some [])) ''Authorization'' \<noteq> Some []"
  by (simp add: apiRequest_init_def)

text \<open>
  Claim C7, amended. In the request that \<open>apiRequest\<close> builds, the Authorization header
  is the token itself, with nothing put before it, when a token that is not the empty
  string is supplied; there is no Authorization header when no token is supplied.
\<close>

theorem authorization_header:
  "headers (apiRequest_init endpoint None) ''Authorization'' = None
   \<and> (t \<noteq> [] \<longrightarrow> headers (apiRequest_init endpoint (Some t)) ''Authorization'' = Some t)"
  by (simp add: apiRequest_init_def)

theorem authorization_header_witness:
  "headers (apiRequest_init ''/citations/doi:10.1/x'' None) ''Authorization'' = None
   \<and> headers (apiRequest_init ''/citations/doi:10.1/x'' (Some ''secret'')) ''Authorization''
       = Some ''secret''"
  using authorization_header [of "''/citations/doi:10.1/x''" "''secret''"] by simp

text \<open>
  Claim C10. With the empty string as token, \<open>apiRequest\<close> sends no Authorization header:
  the request is the one built without a token, and so is the outcome of the call.
\<close>

theorem empty_token_no_header:
  "headers (apiRequest_init endpoint (Some [])) ''Authorization'' = None
   \<and> apiRequest_init endpoint (Some []) = apiRequest_init endpoint None
   \<and> apiRequest fetch endpoint (Some []) = apiRequest fetch endpoint None"
  by (simp add: apiRequest_init_def apiRequest_def)

subsection \<open>The response mappers\<close>



text \<open>
  Claim C3. When the response is a success and its body decodes to the list \<open>data\<close>,
  \<open>getCitation\<close> is fulfilled (it does not fail) with \<open>null\<close> for the empty list and
  with the first element otherwise.
\<close>

theorem getCitation_decode:
  assumes "\<And>req. \<exists>r. fetch req = Inr r \<and> ok r \<and> json r = Inr data"
  shows "getCitation fetch oci_id tok = Inr (if data = [] then None else Some (hd data))"
  using apiRequest_decoded [OF assms]
  by (simp add: getCitation_def hd_conv_nth)

theorem getCitation_decode_witness:
  "getCitation (\<lambda>_. Inr \<lparr>status = 200, statusText = ''OK'', json = Inr []\<rparr>)
     ''06101801781-06180334099'' None = Inr None
   \<and> getCitation (\<lambda>_. Inr \<lparr>status = 200, statusText = ''OK'', json = Inr
        [\<lparr>oci = ''06101801781-06180334099'', citing = ''doi:10.7717/peerj-cs.421'',
          cited = ''doi:10.1108/jd-12-2013-0166'', creation = ''2021-03-10'',
          timespan = ''P6Y0M1D'', journal_sc = ''no'', author_sc = ''no''\<rparr>]\<rparr>)
     ''06101801781-06180334099'' None
     = Inr (Some \<lparr>oci = ''06101801781-06180334099'', citing = ''doi:10.7717/peerj-cs.421'',
          cited = ''doi:10.1108/jd-12-2013-0166'', creation = ''2021-03-10'',
          timespan = ''P6Y0M1D'', journal_sc = ''no'', author_sc = ''no''\<rparr>)"
proof -
  have e: "\<And>req. \<exists>r. (\<lambda>_. Inr \<lparr>status = 200, statusText = ''OK'',
              json = (Inr [] :: error + Citation list)\<rparr>) req = Inr r
            \<and> ok r \<and> json r = Inr []"
    by (simp add: ok_def)
  have h: "\<And>req. \<exists>r. (\<lambda>_. Inr \<lparr>status = 200, statusText = ''OK'', json = Inr
        [\<lparr>oci = ''06101801781-06180334099'', citing = ''doi:10.7717/peerj-cs.421'',
          cited = ''doi:10.1108/jd-12-2013-0166'', creation = ''2021-03-10'',
          timespan = ''P6Y0M1D'', journal_sc = ''no'', author_sc = ''no''\<rparr>]\<rparr>) req = Inr r
            \<and> ok r \<and> json r = Inr
        [\<lparr>oci = ''06101801781-06180334099'', citing = ''doi:10.7717/peerj-cs.421'',
          cited = ''doi:10.1108/jd-12-2013-0166'', creation = ''2021-03-10'',
          timespan = ''P6Y0M1D'', journal_sc = ''no'', author_sc = ''no''\<rparr>]"
    by (simp add: ok_def)
  show ?thesis
    using getCitation_decode [OF e, of "''06101801781-06180334099''" None]
      getCitation_decode [OF h, of "''06101801781-06180334099''" None]
    by simp
qed

subsection \<open>The text formatters\<close>


text \<open>
  Read back line by line, the text of a record whose fields hold no line feed has
  exactly these seven lines.
\<close>

lemma splitLines_line:
  "CHR 0x0A \<notin> set x \<Longrightarrow> splitLines (x @ newline @ y) = x # splitLines y"
  by (induction x) (auto simp: newline_def)

lemma splitLines_last: "CHR 0x0A \<notin> set x \<Longrightarrow> splitLines x = [x]"
  by (induction x) auto

lemma formatCitationAsText_splitLines:
  assumes "CHR 0x0A \<notin> set (oci c)" "CHR 0x0A \<notin> set (citing c)"
    "CHR 0x0A \<notin> set (cited c)" "CHR 0x0A \<notin> set (creation c)"
    "CHR 0x0A \<notin> set (timespan c)" "CHR 0x0A \<notin> set (journal_sc c)"
    "CHR 0x0A \<notin> set (author_sc c)"
  shows "splitLines (formatCitationAsText c) =
     [''OCI: '' @ oci c,
      ''Citing: '' @ citing c,
      ''Cited: '' @ cited c,
      ''Date: '' @ orElse (creation c) ''N/A'',
      ''Timespan: '' @ orElse (timespan c) ''N/A'',
      ''Journal self-citation: '' @ orElse (journal_sc c) ''no'',
      ''Author self-citation: '' @ orElse (author_sc c) ''no'']"
proof -
  have l1: "CHR 0x0A \<notin> set (''OCI: '' @ oci c)" using assms by simp
  have l2: "CHR 0x0A \<notin> set (''Citing: '' @ citing c)" using assms by simp
  have l3: "CHR 0x0A \<notin> set (''Cited: '' @ cited c)" using assms by simp
  have l4: "CHR 0x0A \<notin> set (''Date: '' @ orElse (creation c) ''N/A'')"
    using assms by (simp add: orElse_def)
  have l5: "CHR 0x0A \<notin> set (''Timespan: '' @ orElse (timespan c) ''N/A'')"
    using assms by (simp add: orElse_def)
  have l6: "CHR 0x0A \<notin> set (''Journal self-citation: '' @ orElse (journal_sc c) ''no'')"
    using assms by (simp add: orElse_def)
  have l7: "CHR 0x0A \<notin> set (''Author self-citation: '' @ orElse (author_sc c) ''no'')"
    using assms by (simp add: orElse_def)
  have "formatCitationAsText c =
      (''OCI: '' @ oci c) @ newline @ (''Citing: '' @ citing c) @ newline
      @ (''Cited: '' @ cited c) @ newline @ (''Date: '' @ orElse (creation c) ''N/A'') @ newline
      @ (''Timespan: '' @ orElse (timespan c) ''N/A'') @ newline
      @ (''Journal self-citation: '' @ orElse (journal_sc c) ''no'') @ newline
      @ (''Author self-citation: '' @ orElse (author_sc c) ''no'')"
    by (simp add: formatCitationAsText_def)
  then show ?thesis
    by (simp only: splitLines_line [OF l1] splitLines_line [OF l2] splitLines_line [OF l3]
        splitLines_line [OF l4] splitLines_line [OF l5] splitLines_line [OF l6]
        splitLines_last [OF l7])
qed





end
